theory Spec2Isabelle
  imports Main
begin

section \<open>Strings\<close>

text \<open>
  A JavaScript string is a sequence of UTF-16 code units. The embedding uses the HOL type
  \<open>string\<close> and reads a \<open>char\<close> as a code unit below 256 (Basic Latin and Latin-1
  Supplement); every literal of the two route handlers and of the two pages lies in that range.
\<close>

text \<open>
  \<open>String.prototype.toLowerCase\<close> on that range: the letters A to Z and the Latin-1 capitals
  U+00C0 to U+00DE (without the multiplication sign U+00D7) move up by 32, every other code
  unit stays.
\<close>

definition toLowerCaseChar :: "char \<Rightarrow> char" where
  "toLowerCaseChar c =
     (let n = (of_char c :: nat)
      in if (65 \<le> n \<and> n \<le> 90) \<or> (192 \<le> n \<and> n \<le> 222 \<and> n \<noteq> 215)
         then char_of (n + 32) else c)"

definition toLowerCase :: "string \<Rightarrow> string" where
  "toLowerCase text = map toLowerCaseChar text"

text \<open>\<open>String.prototype.startsWith\<close> and \<open>String.prototype.includes\<close> (named \<open>includes_str\<close> here).\<close>

fun startsWith :: "string \<Rightarrow> string \<Rightarrow> bool" where
  "startsWith s [] = True"
| "startsWith [] (k # ks) = False"
| "startsWith (c # cs) (k # ks) = (c = k \<and> startsWith cs ks)"

fun includes_str :: "string \<Rightarrow> string \<Rightarrow> bool" where
  "includes_str [] k = (k = [])"
| "includes_str (c # cs) k = (startsWith (c # cs) k \<or> includes_str cs k)"

text \<open>\<open>Array.prototype.some\<close>.\<close>

fun some :: "'a list \<Rightarrow> ('a \<Rightarrow> bool) \<Rightarrow> bool" where
  "some [] p = False"
| "some (x # xs) p = (p x \<or> some xs p)"

section \<open>The classifiers\<close>

definition challengeKeywords :: "string list" where
  "challengeKeywords =
    [''challenge'', ''task'', ''goal'', ''habit'', ''routine'', ''activity'', ''productivity'',
     ''wellness'', ''fitness'', ''health'', ''exercise'', ''workout'', ''diet'', ''nutrition'',
     ''meditation'', ''mindfulness'', ''mental'', ''learning'', ''skill'', ''hobby'', ''project'',
     ''daily'', ''weekly'', ''monthly'', ''morning'', ''evening'', ''work'', ''personal'',
     ''creative'', ''art'', ''writing'', ''reading'', ''social'', ''career'', ''development'',
     ''growth'', ''self-improvement'', ''motivation'', ''discipline'', ''consistency'',
     ''focus'', ''time management'', ''stress'', ''anxiety'', ''sleep'', ''habit tracking'',
     ''goals'', ''targets'', ''milestones'', ''progress'', ''achievement'',
     ''productivity hacks'', ''lifehack'', ''journaling'', ''reflection'', ''vision'', ''planning'',
     ''goal setting'', ''tracking'', ''resilience'', ''grit'', ''inspiration'', ''checklist'',
     ''self-care'', ''affirmations'', ''clarity'', ''breathing'', ''routine building'',
     ''energy boost'', ''positivity'', ''clean eating'', ''hydration'', ''step count'',
     ''walking'', ''running'', ''stretching'', ''yoga'', ''bodyweight'', ''strength'', ''calmness'',
     ''balance'', ''mindset'', ''consumption'', ''detox'', ''routine design'', ''habit loop'',
     ''lifestyle'', ''commitment'', ''persistence'', ''accountability'', ''feedback'',
     ''goal review'', ''win'', ''micro-goals'', ''streak'', ''habit stacking'', ''keystone habit'']"

definition isChallengeQuery :: "string \<Rightarrow> bool" where
  "isChallengeQuery text =
     (let lowerText = toLowerCase text
      in some challengeKeywords (\<lambda>keyword. includes_str lowerText (toLowerCase keyword)))"

definition legalKeywords :: "string list" where
  "legalKeywords =
    [''law'', ''legal'', ''right'', ''rights'', ''court'', ''judge'', ''attorney'', ''lawyer'', ''lawsuit'',
     ''contract'', ''agreement'', ''breach'', ''liability'', ''tort'', ''compensation'', ''damages'',
     ''crime'', ''criminal'', ''offense'', ''prosecution'', ''defendant'', ''plaintiff'', ''sue'', ''sued'',
     ''divorce'', ''custody'', ''property'', ''estate'', ''will'', ''testament'', ''inheritance'',
     ''tenant'', ''landlord'', ''lease'', ''eviction'', ''employment'', ''discrimination'',
     ''patent'', ''copyright'', ''trademark'', ''intellectual property'', ''settlement'',
     ''regulation'', ''statute'', ''legislation'', ''constitution'', ''jurisdiction'',
     ''insurance'', ''claim'', ''dispute'', ''arbitration'', ''mediation'', ''license'',
     ''debt'', ''bankruptcy'', ''tax'', ''immigration'', ''visa'', ''citizenship'']"

definition isLegalQuestion :: "string \<Rightarrow> bool" where
  "isLegalQuestion text =
     (let lowerText = toLowerCase text
      in some legalKeywords (\<lambda>keyword. includes_str lowerText (toLowerCase keyword)))"

section \<open>The route handler: data\<close>

text \<open>
  \<open>interface ChatMessage { id; role; content }\<close>. The field \<open>id\<close> is written \<open>id'\<close>
  (\<open>id\<close> is the identity function of HOL). The pages build their messages with the same three
  fields and roles \<open>user\<close> and \<open>assistant\<close>, and post them as JSON, so one record serves both
  sides.
\<close>

record ChatMessage =
  id' :: string
  role :: string
  content :: string

text \<open>
  An entry of \<open>chatHistory\<close>: \<open>{ role, parts: [{ text }] }\<close>. Its role is written
  \<open>h_role\<close> and the field \<open>text\<close> of a part \<open>text'\<close>, to keep them apart from the field of
  \<open>ChatMessage\<close> and from the outer keyword.
\<close>

record Part =
  text' :: string

record Content =
  h_role :: string
  parts :: "Part list"

text \<open>
  A thrown value as the \<open>catch\<close> clauses read it: \<open>error.status\<close> (\<open>None\<close> when the
  property is absent or not a number) and \<open>error.message\<close> (\<open>None\<close> when absent).
\<close>

record JsError =
  status :: "nat option"
  message :: "string option"

text \<open>The two JSON bodies the handler serialises.\<close>

datatype JsonBody =
    RateLimitJson (json_error: string) (json_message: string) (retryAfter: nat)
  | ErrorJson (json_error: string)

text \<open>
  The \<open>ReadableStream\<close> behind a streamed response, after its \<open>start\<close> callback has run: the
  chunks enqueued, oldest first, and how the stream ended.
\<close>

datatype StreamState = Readable | Closed | Errored JsError

record 'b Controller =
  queue :: "'b list"
  state :: StreamState

datatype 'b Body = StreamBody "'b Controller" | JsonBody JsonBody

text \<open>\<open>new Response(body, { status, headers })\<close>; the status is written \<open>status_code\<close>.\<close>

record 'b Response =
  body :: "'b Body"
  status_code :: nat
  headers :: "(string \<times> string) list"

text \<open>The two variants of the route handler differ in their literals only.\<close>

datatype Bot = SadhanaAI | KautilyaAI

fun classifier :: "Bot \<Rightarrow> string \<Rightarrow> bool" where
  "classifier SadhanaAI = isChallengeQuery"
| "classifier KautilyaAI = isLegalQuestion"

fun acknowledgePrompt :: "Bot \<Rightarrow> string" where
  "acknowledgePrompt SadhanaAI =
     ''You are SadhanaAI, a daily challenge bot. Please acknowledge your role.''"
| "acknowledgePrompt KautilyaAI =
     ''You are KautilyaAI, an AI legal assistant. Please acknowledge your role.''"

fun systemPromptText :: "Bot \<Rightarrow> string" where
  "systemPromptText SadhanaAI =
     ''You are SadhanaAI, a daily challenge bot. You provide personalized challenges and tasks to help users improve productivity, wellness, learning, or skill development. Format your responses with clear, actionable challenges presented as context cards. For non-challenge questions, respond with: 'I'm a challenge bot focused on providing personalized daily tasks and challenges. I cannot answer questions outside this domain.''
     @ [CHR 0x27]"
| "systemPromptText KautilyaAI =
     ''You are KautilyaAI, an AI legal assistant. Provide general legal information only, not specific advice. Always recommend consulting a qualified attorney for specific matters. For non-legal questions, respond with: 'I'm KautilyaAI, a legal advisor focused exclusively on providing general legal information. I cannot answer questions outside the legal domain.''
     @ [CHR 0x27]"

section \<open>The route handler: history assembly\<close>

text \<open>\<open>Array.prototype.findIndex\<close>: the first index whose element satisfies \<open>p\<close>, or \<open>-1\<close>.\<close>

fun findIndex :: "'a list \<Rightarrow> ('a \<Rightarrow> bool) \<Rightarrow> int" where
  "findIndex [] p = -1"
| "findIndex (x # xs) p =
     (if p x then 0
      else (let i = findIndex xs p in if i = -1 then -1 else i + 1))"

text \<open>The two priming entries pushed onto the empty \<open>chatHistory\<close>.\<close>

definition primingHistory :: "Bot \<Rightarrow> Content list" where
  "primingHistory variant =
     [\<lparr>h_role = ''user'', parts = [\<lparr>text' = acknowledgePrompt variant\<rparr>]\<rparr>,
      \<lparr>h_role = ''model'', parts = [\<lparr>text' = systemPromptText variant\<rparr>]\<rparr>]"

text \<open>
  The body of \<open>for (const userMsg of userMessages)\<close>: one iteration per equation, the history
  threaded through. For an index of \<open>-1\<close> the test reads \<open>messages[0]\<close>, as the source does.
\<close>

fun pairLoop :: "ChatMessage list \<Rightarrow> ChatMessage list \<Rightarrow> Content list \<Rightarrow> Content list" where
  "pairLoop messages [] chatHistory = chatHistory"
| "pairLoop messages (userMsg # rest) chatHistory =
     (let userIndex = findIndex messages (\<lambda>m. id' m = id' userMsg);
          chatHistory1 = chatHistory @ [\<lparr>h_role = ''user'', parts = [\<lparr>text' = content userMsg\<rparr>]\<rparr>];
          chatHistory2 =
            (if userIndex + 1 < int (length messages) \<and>
                role (messages ! nat (userIndex + 1)) = ''assistant''
             then chatHistory1 @
                  [\<lparr>h_role = ''model'',
                    parts = [\<lparr>text' = content (messages ! nat (userIndex + 1))\<rparr>]\<rparr>]
             else chatHistory1)
      in pairLoop messages rest chatHistory2)"

definition buildChatHistory :: "Bot \<Rightarrow> ChatMessage list \<Rightarrow> ChatMessage \<Rightarrow> Content list" where
  "buildChatHistory variant messages lastUserMessage =
     (let chatHistory = primingHistory variant
      in if length messages > 1
         then (let userMessages =
                     filter (\<lambda>msg. role msg = ''user'' \<and> id' msg \<noteq> id' lastUserMessage) messages
               in pairLoop messages userMessages chatHistory)
         else chatHistory)"

text \<open>
  The \<open>try\<close> block up to the external call: the error thrown when no message has the role
  \<open>user\<close>, or the history given to \<open>startChat\<close> with the text given to
  \<open>sendMessageStream\<close>. The index \<open>messages.length - 1 - lastUserMessageIndex\<close> is in range
  whenever \<open>findIndex\<close> has found an element of the reversed array.
\<close>

definition chatRequest :: "Bot \<Rightarrow> ChatMessage list \<Rightarrow> JsError + (Content list \<times> string)" where
  "chatRequest variant messages =
     (let lastUserMessageIndex = findIndex (rev messages) (\<lambda>msg. role msg = ''user'')
      in if lastUserMessageIndex = -1
         then Inl \<lparr>status = None, message = Some ''No user message found''\<rparr>
         else (let lastUserMessage = messages ! nat (int (length messages) - 1 - lastUserMessageIndex);
                   isQuery = classifier variant (content lastUserMessage);
                   chatHistory = buildChatHistory variant messages lastUserMessage
               in Inr (chatHistory, content lastUserMessage)))"

section \<open>The route handler: stream relay\<close>

text \<open>
  The upstream \<open>result.stream\<close> is a finite sequence of chunks; \<open>chunk.text()\<close> returns a
  string (\<open>Inr\<close>) or throws (\<open>Inl\<close>). \<open>TextEncoder.encode\<close> belongs to the platform and is a
  parameter. The \<open>for await\<close> loop of \<open>start\<close> enqueues the encoding of every text that is
  truthy, that is, not the empty string; it closes the stream at the end of the sequence and
  puts it in the error state at the first throw. The loop only tests a text for emptiness, so
  the code units of a text may be of any type \<open>'c\<close>.
\<close>

definition enqueue :: "'b \<Rightarrow> 'b Controller \<Rightarrow> 'b Controller" where
  "enqueue chunk controller = controller\<lparr>queue := queue controller @ [chunk]\<rparr>"

fun relayLoop ::
  "('c list \<Rightarrow> 'b) \<Rightarrow> (JsError + 'c list) list \<Rightarrow> 'b Controller \<Rightarrow> 'b Controller" where
  "relayLoop encode [] controller = controller\<lparr>state := Closed\<rparr>"
| "relayLoop encode (Inl error # rest) controller = controller\<lparr>state := Errored error\<rparr>"
| "relayLoop encode (Inr text # rest) controller =
     relayLoop encode rest (if text \<noteq> [] then enqueue (encode text) controller else controller)"

definition start :: "('c list \<Rightarrow> 'b) \<Rightarrow> (JsError + 'c list) list \<Rightarrow> 'b Controller" where
  "start encode stream = relayLoop encode stream \<lparr>queue = [], state = Readable\<rparr>"

section \<open>The route handler: errors\<close>

definition isDigit :: "char \<Rightarrow> bool" where
  "isDigit c = (48 \<le> (of_char c :: nat) \<and> (of_char c :: nat) \<le> 57)"

text \<open>The literal text of the regular expression before its group: \<open>retryDelay":"\<close>.\<close>

definition retryDelayLiteral :: string where
  "retryDelayLiteral = ''retryDelay'' @ [CHR 0x22] @ '':'' @ [CHR 0x22]"

text \<open>
  \<open>message.match(/retryDelay":"(\d+)s/)\<close>, reduced to its first group. \<open>matchHere\<close> tries
  the expression at the start of the string: the literal, the longest run of digits, which
  must not be empty, then \<open>s\<close> (a shorter run of digits is followed by a digit, never by
  \<open>s\<close>, so backtracking finds nothing more). \<open>retryDelayMatch\<close> tries every start position
  from the left and keeps the first match, as \<open>match\<close> does without the \<open>g\<close> flag.
\<close>

definition matchHere :: "string \<Rightarrow> string option" where
  "matchHere s =
     (if startsWith s retryDelayLiteral
      then (let rest = drop (length retryDelayLiteral) s;
                ds = takeWhile isDigit rest
            in if ds \<noteq> [] \<and> startsWith (dropWhile isDigit rest) ''s'' then Some ds else None)
      else None)"

fun retryDelayMatch :: "string \<Rightarrow> string option" where
  "retryDelayMatch [] = matchHere []"
| "retryDelayMatch (c # cs) =
     (case matchHere (c # cs) of Some ds \<Rightarrow> Some ds | None \<Rightarrow> retryDelayMatch cs)"

text \<open>
  \<open>parseInt(digits, 10)\<close> on a string of decimal digits, and \<open>Number.prototype.toString\<close>
  on a natural number. Both are exact here; JavaScript's \<open>parseInt\<close> agrees below
  \<open>2^53\<close> and its \<open>toString\<close> below \<open>10^21\<close>.
\<close>

definition digitValue :: "char \<Rightarrow> nat" where
  "digitValue c = of_char c - 48"

fun parseIntFrom :: "nat \<Rightarrow> string \<Rightarrow> nat" where
  "parseIntFrom acc [] = acc"
| "parseIntFrom acc (c # cs) = parseIntFrom (10 * acc + digitValue c) cs"

definition parseInt :: "string \<Rightarrow> nat" where
  "parseInt ds = parseIntFrom 0 ds"

fun toString :: "nat \<Rightarrow> string" where
  "toString n =
     (if n < 10 then [char_of (48 + n)]
      else toString (n div 10) @ [char_of (48 + n mod 10)])"

declare toString.simps [simp del]

text \<open>
  The rate-limit branch of the \<open>catch\<close> clause. Reading \<open>error.message.match\<close> of an
  absent message throws inside the inner \<open>try\<close>, whose \<open>catch\<close> leaves \<open>retrySeconds\<close> at
  60. The first group of a match is never empty, so the test \<open>retryDelayMatch[1]\<close> is kept as
  written.
\<close>

definition retrySecondsOf :: "JsError \<Rightarrow> nat" where
  "retrySecondsOf error =
     (case message error of
        None \<Rightarrow> 60
      | Some msg \<Rightarrow>
          (case retryDelayMatch msg of
             None \<Rightarrow> 60
           | Some group1 \<Rightarrow> if group1 \<noteq> [] then parseInt group1 else 60))"

definition isRateLimit :: "JsError \<Rightarrow> bool" where
  "isRateLimit error =
     (status error = Some 429 \<or>
      (case message error of
         None \<Rightarrow> False
       | Some msg \<Rightarrow> msg \<noteq> [] \<and> includes_str msg ''429''))"

definition catchError :: "JsError \<Rightarrow> 'b Response" where
  "catchError error =
     (if isRateLimit error
      then (let retrySeconds = retrySecondsOf error
            in \<lparr>body = JsonBody (RateLimitJson ''Rate limit exceeded''
                    (''Google AI API rate limit reached. Please try again in '' @
                     toString retrySeconds @
                     '' seconds. The free tier of Gemini API has strict rate limits.'')
                    retrySeconds),
                status_code = 429,
                headers = [(''Content-Type'', ''application/json''),
                           (''Retry-After'', toString retrySeconds)]\<rparr>)
      else \<lparr>body = JsonBody (ErrorJson
                (case message error of
                   None \<Rightarrow> ''Failed to process chat request''
                 | Some msg \<Rightarrow> if msg \<noteq> [] then msg else ''Failed to process chat request'')),
            status_code = 500,
            headers = [(''Content-Type'', ''application/json'')]\<rparr>)"

section \<open>The route handler\<close>

text \<open>
  \<open>POST\<close>. The external model is a parameter: \<open>sendMessageStream history text\<close> stands for
  \<open>model.startChat({ history, ... })\<close> followed by \<open>chat.sendMessageStream(text)\<close>, and
  returns the thrown error or the chunks of \<open>result.stream\<close>. Every error of the \<open>try\<close> block
  reaches \<open>catchError\<close>; an error inside \<open>start\<close> stays in the stream of a response that is
  already a 200.
\<close>

definition POST ::
  "Bot \<Rightarrow> (string \<Rightarrow> 'b) \<Rightarrow> (Content list \<Rightarrow> string \<Rightarrow> JsError + (JsError + string) list) \<Rightarrow>
   ChatMessage list \<Rightarrow> 'b Response" where
  "POST variant encode sendMessageStream messages =
     (case chatRequest variant messages of
        Inl error \<Rightarrow> catchError error
      | Inr (chatHistory, lastUserContent) \<Rightarrow>
          (case sendMessageStream chatHistory lastUserContent of
             Inl error \<Rightarrow> catchError error
           | Inr stream \<Rightarrow>
               \<lparr>body = StreamBody (start encode stream),
                status_code = 200,
                headers = [(''Content-Type'', ''text/plain; charset=utf-8'')]\<rparr>))"

section \<open>The page: state\<close>

text \<open>
  The state of the chat component: its five \<open>useState\<close> cells, and two logs that make its
  effects visible: \<open>requests\<close>, the \<open>messages\<close> payload of every call of \<open>fetch\<close>, and
  \<open>renders\<close>, the transcript after every call of \<open>setMessages\<close>, both oldest first. React
  may batch several calls into one render, so the transcripts it renders are among those of
  \<open>renders\<close>, in the same order.
\<close>

record ClientState =
  messages :: "ChatMessage list"
  input :: string
  isLoading :: bool
  error :: "string option"
  retryTimer :: "nat option"
  requests :: "ChatMessage list list"
  renders :: "ChatMessage list list"

definition setMessages :: "(ChatMessage list \<Rightarrow> ChatMessage list) \<Rightarrow> ClientState \<Rightarrow> ClientState" where
  "setMessages f s =
     (let next = f (messages s) in s\<lparr>messages := next, renders := renders s @ [next]\<rparr>)"

text \<open>
  \<open>String.prototype.trim\<close> removes white space and line terminators from both ends; below
  256 these are the code units 9 to 13, 32 and 160.
\<close>

definition isWhiteSpace :: "char \<Rightarrow> bool" where
  "isWhiteSpace c = ((of_char c :: nat) \<in> {9, 10, 11, 12, 13, 32, 160})"

definition trim :: "string \<Rightarrow> string" where
  "trim s = rev (dropWhile isWhiteSpace (rev (dropWhile isWhiteSpace s)))"

text \<open>
  What the page reads of the result of \<open>fetch\<close>: a rejection; a response that is not
  \<open>ok\<close>, with its status and the outcome of \<open>response.json()\<close>; or an \<open>ok\<close> response, with
  its \<open>Content-Type\<close> header (empty when absent) and its body, if any, as the chunks its
  reader delivers and the way the stream ends.
\<close>

datatype 'b FetchResult =
    Rejected JsError
  | NotOk nat "JsError + JsonBody"
  | Ok string "'b Controller option"

text \<open>How a run of the \<open>try\<close> block of \<open>sendMessage\<close> ends.\<close>

datatype Outcome =
    Returned ClientState
  | Threw JsError ClientState
  | Pending ClientState

section \<open>The page: sendMessage\<close>

text \<open>
  The \<open>while (true)\<close> loop over \<open>reader.read()\<close>, one iteration per chunk delivered.
  \<open>TextDecoder.decode\<close> belongs to the platform and is a parameter here; every value read is
  taken to be one whole enqueued chunk, and the decoder to carry nothing from one call to the
  next. The section on UTF-16 strings below follows the same loop with the platform's own
  streaming decoder, for any chunking of the bytes.
\<close>

fun readLoop :: "('b \<Rightarrow> string) \<Rightarrow> string \<Rightarrow> 'b list \<Rightarrow> string \<Rightarrow> ClientState \<Rightarrow> ClientState" where
  "readLoop decode assistantId [] responseText s = s"
| "readLoop decode assistantId (val # rest) responseText s =
     (let chunk = decode val;
          responseText1 = responseText @ chunk;
          s1 = setMessages
                 (map (\<lambda>msg. if id' msg = assistantId then msg\<lparr>content := responseText1\<rparr> else msg)) s
      in readLoop decode assistantId rest responseText1 s1)"

text \<open>
  The \<open>try\<close> block after \<open>fetch\<close> has answered. \<open>uuid2\<close> is the value of the second
  \<open>uuidv4()\<close>. A stream that is neither closed nor in error never reports \<open>done\<close>: the
  component stays where the last chunk left it. \<open>parseInt(errorData.retryAfter, 10)\<close> reads
  the number back from its decimal string and is taken as the number itself, which holds below
  \<open>10^21\<close>.
\<close>

definition handleResponse :: "('b \<Rightarrow> string) \<Rightarrow> string \<Rightarrow> 'b FetchResult \<Rightarrow> ClientState \<Rightarrow> Outcome" where
  "handleResponse decode uuid2 response s =
     (case response of
        Rejected err \<Rightarrow> Threw err s
      | NotOk st parsed \<Rightarrow>
          (case parsed of
             Inl err \<Rightarrow> Threw err s
           | Inr errorData \<Rightarrow>
               (case errorData of
                  RateLimitJson e m r \<Rightarrow>
                    if st = 429 \<and> r \<noteq> 0
                    then (let seconds = r;
                              shown = (if m \<noteq> [] then m
                                       else ''Rate limit exceeded. Please wait '' @ toString seconds @
                                            '' seconds before trying again.'');
                              s1 = s\<lparr>retryTimer := Some seconds, error := Some shown\<rparr>
                          in Threw \<lparr>status = None,
                                    message = Some (if m \<noteq> [] then m else ''Rate limit exceeded'')\<rparr> s1)
                    else Threw \<lparr>status = None,
                                message = Some (if e \<noteq> [] then e else ''Failed to get response'')\<rparr> s
                | ErrorJson e \<Rightarrow>
                    Threw \<lparr>status = None,
                           message = Some (if e \<noteq> [] then e else ''Failed to get response'')\<rparr> s))
      | Ok contentType reader \<Rightarrow>
          if includes_str contentType ''text/plain''
          then (let assistantMessage = \<lparr>id' = uuid2, role = ''assistant'', content = []\<rparr>;
                    s1 = setMessages (\<lambda>prev. prev @ [assistantMessage]) s
                in case reader of
                     None \<Rightarrow> Returned s1
                   | Some controller \<Rightarrow>
                       (let s2 = readLoop decode uuid2 (queue controller) [] s1
                        in case state controller of
                             Closed \<Rightarrow> Returned s2
                           | Errored err \<Rightarrow> Threw err s2
                           | Readable \<Rightarrow> Pending s2))
          else Threw \<lparr>status = None, message = Some ''Unexpected response format from server''\<rparr> s)"

text \<open>
  \<open>sendMessage\<close>. \<open>uuid1\<close> is the value of the first \<open>uuidv4()\<close>. The payload and the test
  \<open>!retryTimer\<close> of the \<open>catch\<close> clause read the \<open>messages\<close> and the \<open>retryTimer\<close> of the
  render that created the function, that is, of the state it is called in.
\<close>

definition sendMessage ::
  "('b \<Rightarrow> string) \<Rightarrow> (ChatMessage list \<Rightarrow> 'b FetchResult) \<Rightarrow> string \<Rightarrow> string \<Rightarrow> string \<Rightarrow>
   ClientState \<Rightarrow> ClientState" where
  "sendMessage decode fetch uuid1 uuid2 messageContent s =
     (if trim messageContent = [] \<or> isLoading s then s
      else (let userMessage = \<lparr>id' = uuid1, role = ''user'', content = messageContent\<rparr>;
                s1 = (setMessages (\<lambda>prev. prev @ [userMessage]) s)
                       \<lparr>input := [], isLoading := True, error := None\<rparr>;
                payload = messages s @ [userMessage];
                s2 = s1\<lparr>requests := requests s1 @ [payload]\<rparr>
            in case handleResponse decode uuid2 (fetch payload) s2 of
                 Returned s3 \<Rightarrow> s3\<lparr>isLoading := False\<rparr>
               | Threw err s3 \<Rightarrow>
                   (if retryTimer s = None \<or> retryTimer s = Some 0
                    then s3\<lparr>error := Some (case message err of
                                             None \<Rightarrow> ''Failed to communicate with the AI''
                                           | Some m \<Rightarrow> if m \<noteq> [] then m
                                                      else ''Failed to communicate with the AI'')\<rparr>
                    else s3)\<lparr>isLoading := False\<rparr>
               | Pending s3 \<Rightarrow> s3))"

text \<open>
  The network between the page and the route handler: what \<open>fetch("/api/chat")\<close> shows of the
  handler's response. The handler answers either 200 with a stream or 429/500 with a JSON
  body; for the two other combinations, which it never produces, the body is taken as absent
  and \<open>response.json()\<close> as failing.
\<close>

fun headerValue :: "(string \<times> string) list \<Rightarrow> string \<Rightarrow> string option" where
  "headerValue [] name = None"
| "headerValue ((k, v) # rest) name = (if k = name then Some v else headerValue rest name)"

definition deliver :: "'b Response \<Rightarrow> 'b FetchResult" where
  "deliver response =
     (if 200 \<le> status_code response \<and> status_code response \<le> 299
      then Ok (case headerValue (headers response) ''Content-Type'' of None \<Rightarrow> [] | Some v \<Rightarrow> v)
              (case body response of StreamBody controller \<Rightarrow> Some controller | JsonBody j \<Rightarrow> None)
      else NotOk (status_code response)
              (case body response of
                 JsonBody j \<Rightarrow> Inr j
               | StreamBody controller \<Rightarrow>
                   Inl \<lparr>status = None, message = Some ''Unexpected token''\<rparr>))"

definition fetchChat ::
  "Bot \<Rightarrow> (string \<Rightarrow> 'b) \<Rightarrow> (Content list \<Rightarrow> string \<Rightarrow> JsError + (JsError + string) list) \<Rightarrow>
   ChatMessage list \<Rightarrow> 'b FetchResult" where
  "fetchChat variant encode sendMessageStream payload =
     deliver (POST variant encode sendMessageStream payload)"

section \<open>The stream path on UTF-16 strings\<close>






text \<open>
  The UTF-8 decoder of the Encoding Standard, one byte at a time. With no byte pending
  (\<open>leadByte\<close>) a byte is a code point of its own, opens a sequence of two, three or four
  bytes, narrowing the range allowed for the next byte where the standard does, or is an error.
  A pending sequence takes the byte if it lies within the boundaries and emits the code point
  when the sequence is complete; otherwise the sequence is an error, the decoder is reset and the
  byte is read again as a lead byte. Every error emits U+FFFD. \<open>b mod 0x40\<close> is
  \<open>b & 0x3F\<close>, and \<open>p * 0x40 + b mod 0x40\<close> is \<open>(p << 6) | (b & 0x3F)\<close>.
\<close>

record Utf8Decoder =
  codePoint :: nat
  bytesSeen :: nat
  bytesNeeded :: nat
  lowerBoundary :: nat
  upperBoundary :: nat







record TextDecoder =
  decoder :: Utf8Decoder
  bomSeen :: bool



text \<open>
  The page's \<open>interface Message\<close> with a content of code units, and the state of the read
  loop: the decoder, \<open>responseText\<close>, the \<open>messages\<close> cell (\<open>transcript\<close>) and the log of
  its values after every call of \<open>setMessages\<close> (\<open>updates\<close>, oldest first; what React
  renders is among them, in the same order).
\<close>

record Message =
  msgId :: string
  msgRole :: string
  msgContent :: "nat list"

record ReadState =
  textDecoder :: TextDecoder
  responseText :: "nat list"
  transcript :: "Message list"
  updates :: "Message list list"



section \<open>Reference definitions\<close>

text \<open>
  \<open>turnEntries\<close> is what one iteration of the pairing loop appends for \<open>userMsg\<close>, read off
  the loop body. \<open>derivedEntries\<close> says the same from the transcript's side, in the words of
  the specification: position \<open>i\<close> gives a \<open>user\<close> entry with its content and, when the next
  position holds an \<open>assistant\<close> message, a \<open>model\<close> entry with that content.
\<close>

definition turnEntries :: "ChatMessage list \<Rightarrow> ChatMessage \<Rightarrow> Content list" where
  "turnEntries msgs userMsg =
     (let userIndex = findIndex msgs (\<lambda>m. id' m = id' userMsg)
      in \<lparr>h_role = ''user'', parts = [\<lparr>text' = content userMsg\<rparr>]\<rparr> #
         (if userIndex + 1 < int (length msgs) \<and> role (msgs ! nat (userIndex + 1)) = ''assistant''
          then [\<lparr>h_role = ''model'', parts = [\<lparr>text' = content (msgs ! nat (userIndex + 1))\<rparr>]\<rparr>]
          else []))"

definition derivedEntries :: "ChatMessage list \<Rightarrow> nat \<Rightarrow> Content list" where
  "derivedEntries msgs i =
     \<lparr>h_role = ''user'', parts = [\<lparr>text' = content (msgs ! i)\<rparr>]\<rparr> #
     (if i + 1 < length msgs \<and> role (msgs ! (i + 1)) = ''assistant''
      then [\<lparr>h_role = ''model'', parts = [\<lparr>text' = content (msgs ! (i + 1))\<rparr>]\<rparr>]
      else [])"






section \<open>Sample inputs\<close>

text \<open>Transcripts, thrown errors and platform functions at which the claims are evaluated.\<close>

definition pairOnlyTranscript :: "ChatMessage list" where
  "pairOnlyTranscript =
     [\<lparr>id' = ''u1'', role = ''user'', content = ''q''\<rparr>,
      \<lparr>id' = ''a1'', role = ''assistant'', content = ''r''\<rparr>]"

definition twoTurnTranscript :: "ChatMessage list" where
  "twoTurnTranscript =
     [\<lparr>id' = ''1'', role = ''assistant'', content = ''Hello''\<rparr>,
      \<lparr>id' = ''u1'', role = ''user'', content = ''q1''\<rparr>,
      \<lparr>id' = ''a1'', role = ''assistant'', content = ''r1''\<rparr>,
      \<lparr>id' = ''u2'', role = ''user'', content = ''q2''\<rparr>]"

text \<open>
  A sample codec: UTF-8 on the code units below 256, which take one or two bytes each. The
  decoder reads whole one- and two-byte sequences and serves as an instance of the platform's
  \<open>TextDecoder\<close> on what this encoder produces.
\<close>

definition utf8EncodeChar :: "char \<Rightarrow> nat list" where
  "utf8EncodeChar c =
     (let n = (of_char c :: nat)
      in if n < 128 then [n] else [192 + n div 64, 128 + n mod 64])"

definition utf8Encode :: "string \<Rightarrow> nat list" where
  "utf8Encode s = concat (map utf8EncodeChar s)"

fun utf8Decode :: "nat list \<Rightarrow> string" where
  "utf8Decode [] = []"
| "utf8Decode [b] = (if b < 128 then [char_of b] else [])"
| "utf8Decode (b # b2 # bs) =
     (if b < 128 then char_of b # utf8Decode (b2 # bs)
      else char_of ((b - 192) * 64 + (b2 - 128)) # utf8Decode bs)"

text \<open>A model call that throws \<open>e\<close>, and one that streams the fragments \<open>frags\<close>.\<close>

definition rejecting :: "JsError \<Rightarrow> Content list \<Rightarrow> string \<Rightarrow> JsError + (JsError + string) list" where
  "rejecting e h c = Inl e"

definition streaming :: "string list \<Rightarrow> Content list \<Rightarrow> string \<Rightarrow> JsError + (JsError + string) list" where
  "streaming frags h c = Inr (map Inr frags)"

definition greetingOnly :: "ChatMessage list" where
  "greetingOnly = [\<lparr>id' = ''1'', role = ''assistant'', content = ''hi''\<rparr>]"

definition legalFirstTurn :: "ChatMessage list" where
  "legalFirstTurn =
     [\<lparr>id' = ''1'', role = ''assistant'', content = ''Hello''\<rparr>,
      \<lparr>id' = ''u1'', role = ''user'', content = ''What are my rights as a tenant?''\<rparr>]"

definition quotaError503 :: JsError where
  "quotaError503 =
     \<lparr>status = Some 503, message = Some (''Quota exceeded, '' @ retryDelayLiteral @ ''17s'')\<rparr>"

definition quotaError429 :: JsError where
  "quotaError429 =
     \<lparr>status = Some 429,
      message = Some (''[429 Too Many Requests] '' @ retryDelayLiteral @ ''17s'' @ [CHR 0x22])\<rparr>"

definition bareError429 :: JsError where
  "bareError429 = \<lparr>status = Some 429, message = None\<rparr>"

text \<open>The page as it starts, with a text typed in, and the same page while a request is in flight.\<close>

definition initialState :: ClientState where
  "initialState =
     \<lparr>messages = [\<lparr>id' = ''1'', role = ''assistant'', content = ''Hello''\<rparr>],
      input = ''hi'', isLoading = False, error = None, retryTimer = None,
      requests = [], renders = []\<rparr>"

definition loadingState :: ClientState where
  "loadingState = initialState\<lparr>isLoading := True\<rparr>"





section \<open>Lemmas on strings\<close>

lemma startsWith_iff: "startsWith s k \<longleftrightarrow> (\<exists>suf. s = k @ suf)"
  by (induction s k rule: startsWith.induct) auto

lemma includes_iff: "includes_str s k \<longleftrightarrow> (\<exists>pre suf. s = pre @ k @ suf)"
proof (induction s)
  case Nil
  then show ?case by auto
next
  case (Cons c cs)
  show ?case
  proof
    assume "includes_str (c # cs) k"
    then consider "startsWith (c # cs) k" | "includes_str cs k" by auto
    then show "\<exists>pre suf. c # cs = pre @ k @ suf"
    proof cases
      case 1
      then obtain suf where "c # cs = k @ suf" by (auto simp: startsWith_iff)
      then have "c # cs = [] @ k @ suf" by simp
      then show ?thesis by blast
    next
      case 2
      then obtain pre suf where "cs = pre @ k @ suf" using Cons.IH by blast
      then have "c # cs = (c # pre) @ k @ suf" by simp
      then show ?thesis by blast
    qed
  next
    assume "\<exists>pre suf. c # cs = pre @ k @ suf"
    then obtain pre suf where eq: "c # cs = pre @ k @ suf" by blast
    show "includes_str (c # cs) k"
    proof (cases pre)
      case Nil
      with eq have "startsWith (c # cs) k" by (auto simp: startsWith_iff)
      then show ?thesis by simp
    next
      case (Cons p ps)
      with eq have "cs = ps @ k @ suf" by simp
      then have "includes_str cs k" using Cons.IH by blast
      then show ?thesis by simp
    qed
  qed
qed

lemma some_iff: "some xs p \<longleftrightarrow> (\<exists>x \<in> set xs. p x)"
  by (induction xs) auto

lemma challengeKeywords_lower: "list_all (\<lambda>k. toLowerCase k = k) challengeKeywords"
  by code_simp

lemma legalKeywords_lower: "list_all (\<lambda>k. toLowerCase k = k) legalKeywords"
  by code_simp

lemma isLegalQuestion_tenant: "isLegalQuestion ''What are my rights as a tenant?''"
  by code_simp

section \<open>Lemmas on the route handler\<close>

lemma findIndex_ge: "findIndex xs p \<ge> -1"
  by (induction xs) (auto simp: Let_def)

lemma findIndex_none: "findIndex xs p = -1 \<longleftrightarrow> (\<forall>x \<in> set xs. \<not> p x)"
proof (induction xs)
  case Nil show ?case by simp
next
  case (Cons x xs)
  have "findIndex xs p \<ge> -1" by (rule findIndex_ge)
  with Cons show ?case by (auto simp: Let_def)
qed

lemma findIndex_first:
  "i < length xs \<Longrightarrow> p (xs ! i) \<Longrightarrow> (\<forall>j < i. \<not> p (xs ! j)) \<Longrightarrow> findIndex xs p = int i"
proof (induction xs arbitrary: i)
  case Nil then show ?case by simp
next
  case (Cons x xs)
  show ?case
  proof (cases i)
    case 0
    with Cons.prems show ?thesis by simp
  next
    case (Suc k)
    with Cons.prems have np: "\<not> p x" by auto
    from Suc Cons.prems have "k < length xs" "p (xs ! k)" "\<forall>j < k. \<not> p (xs ! j)" by auto
    then have "findIndex xs p = int k" by (rule Cons.IH)
    with np Suc show ?thesis by (simp add: Let_def)
  qed
qed

lemma findIndex_found:
  "findIndex xs p \<noteq> -1 \<Longrightarrow>
   \<exists>i. findIndex xs p = int i \<and> i < length xs \<and> p (xs ! i) \<and> (\<forall>j < i. \<not> p (xs ! j))"
proof (induction xs)
  case Nil then show ?case by simp
next
  case (Cons x xs)
  show ?case
  proof (cases "p x")
    case True
    then show ?thesis by (intro exI[of _ 0]) simp
  next
    case False
    with Cons.prems have "findIndex xs p \<noteq> -1" by (auto simp: Let_def)
    then obtain i where i: "findIndex xs p = int i" "i < length xs" "p (xs ! i)" "\<forall>j < i. \<not> p (xs ! j)"
      using Cons.IH by blast
    have "\<forall>j < Suc i. \<not> p ((x # xs) ! j)"
      using False i(4) by (auto simp: nth_Cons split: nat.splits)
    with i False show ?thesis by (intro exI[of _ "Suc i"]) (simp add: Let_def)
  qed
qed

text \<open>The last index with the property, read through the reversed list.\<close>

lemma findIndex_rev_last:
  assumes "k < length xs" "p (xs ! k)" "\<forall>j. k < j \<and> j < length xs \<longrightarrow> \<not> p (xs ! j)"
  shows "findIndex (rev xs) p = int (length xs - 1 - k)"
proof (rule findIndex_first)
  show "length xs - 1 - k < length (rev xs)" using assms(1) by simp
  show "p (rev xs ! (length xs - 1 - k))" using assms(1,2) by (simp add: rev_nth)
  show "\<forall>j<length xs - 1 - k. \<not> p (rev xs ! j)"
  proof (intro allI impI)
    fix j assume j: "j < length xs - 1 - k"
    then have "rev xs ! j = xs ! (length xs - Suc j)" by (simp add: rev_nth)
    moreover have "k < length xs - Suc j" "length xs - Suc j < length xs" using j by auto
    ultimately show "\<not> p (rev xs ! j)" using assms(3) by simp
  qed
qed

lemma last_index_exists:
  "\<exists>x \<in> set xs. p x \<Longrightarrow>
   \<exists>k. k < length xs \<and> p (xs ! k) \<and> (\<forall>j. k < j \<and> j < length xs \<longrightarrow> \<not> p (xs ! j))"
proof (induction xs rule: rev_induct)
  case Nil then show ?case by simp
next
  case (snoc x xs)
  show ?case
  proof (cases "p x")
    case True
    then show ?thesis by (intro exI[of _ "length xs"]) auto
  next
    case False
    with snoc.prems have "\<exists>x \<in> set xs. p x" by auto
    then obtain k where k: "k < length xs" "p (xs ! k)" "\<forall>j. k < j \<and> j < length xs \<longrightarrow> \<not> p (xs ! j)"
      using snoc.IH by blast
    have "\<forall>j. k < j \<and> j < length (xs @ [x]) \<longrightarrow> \<not> p ((xs @ [x]) ! j)"
      using k(3) False by (auto simp: nth_append)
    with k show ?thesis by (intro exI[of _ k]) (auto simp: nth_append)
  qed
qed

lemma pairLoop_concat:
  "pairLoop msgs us h = h @ concat (map (turnEntries msgs) us)"
  by (induction us arbitrary: h) (simp_all add: turnEntries_def Let_def)

lemma turnEntries_at:
  assumes "i < length msgs" "\<forall>j < i. id' (msgs ! j) \<noteq> id' (msgs ! i)"
  shows "turnEntries msgs (msgs ! i) = derivedEntries msgs i"
proof -
  have "findIndex msgs (\<lambda>m. id' m = id' (msgs ! i)) = int i"
    using assms by (intro findIndex_first) auto
  moreover have "nat (int i + 1) = i + 1" by simp
  moreover have "(int i + 1 < int (length msgs)) = (i + 1 < length msgs)" by linarith
  ultimately show ?thesis
    unfolding turnEntries_def derivedEntries_def Let_def by presburger
qed

lemma distinct_ids_nth:
  "distinct (map id' msgs) \<Longrightarrow> i < length msgs \<Longrightarrow> j < length msgs \<Longrightarrow>
   (id' (msgs ! i) = id' (msgs ! j)) = (i = j)"
  using nth_eq_iff_index_eq[of "map id' msgs" i j] by simp

lemma buildChatHistory_eq:
  "buildChatHistory variant msgs lu =
     primingHistory variant @
     (if length msgs > 1
      then concat (map (turnEntries msgs)
             (filter (\<lambda>msg. role msg = ''user'' \<and> id' msg \<noteq> id' lu) msgs))
      else [])"
  by (simp add: buildChatHistory_def Let_def pairLoop_concat)

lemma chatRequest_last:
  assumes "k < length msgs" "role (msgs ! k) = ''user''"
          "\<forall>j. k < j \<and> j < length msgs \<longrightarrow> role (msgs ! j) \<noteq> ''user''"
  shows "chatRequest variant msgs = Inr (buildChatHistory variant msgs (msgs ! k), content (msgs ! k))"
proof -
  have fi: "findIndex (rev msgs) (\<lambda>msg. role msg = ''user'') = int (length msgs - 1 - k)"
    using assms by (intro findIndex_rev_last) auto
  have "nat (int (length msgs) - 1 - int (length msgs - 1 - k)) = k"
    using assms(1) by linarith
  with fi show ?thesis
    by (simp add: chatRequest_def Let_def)
qed

lemma chatRequest_no_user:
  assumes "\<forall>m \<in> set msgs. role m \<noteq> ''user''"
  shows "chatRequest variant msgs = Inl \<lparr>status = None, message = Some ''No user message found''\<rparr>"
proof -
  have "findIndex (rev msgs) (\<lambda>msg. role msg = ''user'') = -1"
    using assms by (simp add: findIndex_none)
  then show ?thesis by (simp add: chatRequest_def Let_def)
qed

lemma filter_as_indices:
  "filter P xs = map (nth xs) (filter (\<lambda>i. P (xs ! i)) [0..<length xs])"
proof -
  have "filter P xs = filter P (map (nth xs) [0..<length xs])" by (simp add: map_nth)
  also have "\<dots> = map (nth xs) (filter (P \<circ> nth xs) [0..<length xs])" by (rule filter_map)
  finally show ?thesis by (simp add: comp_def)
qed

lemma user_turns_by_index:
  assumes d: "distinct (map id' msgs)" and k: "k < length msgs"
  shows "concat (map (turnEntries msgs)
           (filter (\<lambda>msg. role msg = ''user'' \<and> id' msg \<noteq> id' (msgs ! k)) msgs)) =
         concat (map (derivedEntries msgs)
           (filter (\<lambda>i. role (msgs ! i) = ''user'' \<and> i \<noteq> k) [0..<length msgs]))"
proof -
  let ?P = "\<lambda>msg. role msg = ''user'' \<and> id' msg \<noteq> id' (msgs ! k)"
  have f: "filter (\<lambda>i. ?P (msgs ! i)) [0..<length msgs] =
           filter (\<lambda>i. role (msgs ! i) = ''user'' \<and> i \<noteq> k) [0..<length msgs]"
    using d k by (intro filter_cong) (auto simp: distinct_ids_nth)
  have t: "map (turnEntries msgs \<circ> nth msgs) is = map (derivedEntries msgs) is"
    if "set is \<subseteq> {0..<length msgs}" for "is"
  proof (rule map_cong[OF refl])
    fix i assume "i \<in> set is"
    with that have i: "i < length msgs" by auto
    then have "\<forall>j < i. id' (msgs ! j) \<noteq> id' (msgs ! i)"
      using d by (auto simp: distinct_ids_nth)
    with i show "(turnEntries msgs \<circ> nth msgs) i = derivedEntries msgs i"
      by (simp add: turnEntries_at)
  qed
  have "map (turnEntries msgs) (filter ?P msgs) =
        map (turnEntries msgs \<circ> nth msgs) (filter (\<lambda>i. ?P (msgs ! i)) [0..<length msgs])"
    by (subst filter_as_indices) simp
  also have "\<dots> = map (derivedEntries msgs) (filter (\<lambda>i. ?P (msgs ! i)) [0..<length msgs])"
    by (rule t) auto
  finally show ?thesis by (simp only: f)
qed

lemma twoTurn_facts:
  "distinct (map id' twoTurnTranscript)" "Suc 1 < length twoTurnTranscript"
  "role (twoTurnTranscript ! 1) = ''user''" "role (twoTurnTranscript ! Suc 1) = ''assistant''"
  "\<exists>j. 1 < j \<and> j < length twoTurnTranscript \<and> role (twoTurnTranscript ! j) = ''user''"
proof -
  show "distinct (map id' twoTurnTranscript)" by (simp add: twoTurnTranscript_def)
  show "Suc 1 < length twoTurnTranscript" by (simp add: twoTurnTranscript_def)
  show "role (twoTurnTranscript ! 1) = ''user''" by (simp add: twoTurnTranscript_def)
  show "role (twoTurnTranscript ! Suc 1) = ''assistant''" by (simp add: twoTurnTranscript_def)
  have "1 < (3::nat) \<and> 3 < length twoTurnTranscript \<and> role (twoTurnTranscript ! 3) = ''user''"
    by (simp add: twoTurnTranscript_def)
  then show "\<exists>j. 1 < j \<and> j < length twoTurnTranscript \<and> role (twoTurnTranscript ! j) = ''user''"
    by blast
qed

lemma pairOnly_request:
  "chatRequest SadhanaAI pairOnlyTranscript = Inr (primingHistory SadhanaAI, ''q'')"
  by (simp add: chatRequest_def pairOnlyTranscript_def buildChatHistory_def Let_def)

lemma utf8Decode_char: "utf8Decode (utf8EncodeChar c @ bs) = c # utf8Decode bs"
proof (cases "(of_char c :: nat) < 128")
  case True
  then show ?thesis by (cases bs) (simp_all add: utf8EncodeChar_def)
next
  case False
  have "(of_char c :: nat) div 64 * 64 + of_char c mod 64 = of_char c" by simp
  with False show ?thesis by (simp add: utf8EncodeChar_def Let_def)
qed

lemma utf8_roundtrip: "utf8Decode (utf8Encode s) = s"
  by (induction s) (simp_all add: utf8Encode_def utf8Decode_char)

lemma relayLoop_all_text:
  "relayLoop encode (map Inr frags) controller =
     \<lparr>queue = queue controller @ map encode (filter (\<lambda>t. t \<noteq> []) frags), state = Closed\<rparr>"
  by (induction frags arbitrary: controller) (simp_all add: enqueue_def)

lemma concat_drop_empty: "concat (filter (\<lambda>t. t \<noteq> []) frags) = concat frags"
  by (induction frags) simp_all

lemma no_user_not_rate_limit:
  "isRateLimit \<lparr>status = None, message = Some ''No user message found''\<rparr> = False"
  by (simp add: isRateLimit_def)

lemma turnEntries_real:
  assumes "userMsg \<in> set msgs" "role userMsg = ''user''" "e \<in> set (turnEntries msgs userMsg)"
  shows "\<exists>m \<in> set msgs. parts e = [\<lparr>text' = content m\<rparr>] \<and>
           (h_role e = ''user'' \<and> role m = ''user'' \<or> h_role e = ''model'' \<and> role m = ''assistant'')"
proof -
  let ?ix = "findIndex msgs (\<lambda>m. id' m = id' userMsg)"
  from assms(3) consider
      (usr) "e = \<lparr>h_role = ''user'', parts = [\<lparr>text' = content userMsg\<rparr>]\<rparr>"
    | (mdl) "?ix + 1 < int (length msgs)" "role (msgs ! nat (?ix + 1)) = ''assistant''"
            "e = \<lparr>h_role = ''model'', parts = [\<lparr>text' = content (msgs ! nat (?ix + 1))\<rparr>]\<rparr>"
    by (auto simp: turnEntries_def Let_def split: if_splits)
  then show ?thesis
  proof cases
    case usr
    with assms(1,2) show ?thesis by auto
  next
    case mdl
    have "?ix \<ge> -1" by (rule findIndex_ge)
    with mdl(1) have "nat (?ix + 1) < length msgs" by linarith
    then have "msgs ! nat (?ix + 1) \<in> set msgs" by simp
    with mdl(2,3) show ?thesis by auto
  qed
qed

lemma buildChatHistory_real:
  assumes "e \<in> set (drop 2 (buildChatHistory variant msgs lu))"
  shows "\<exists>m \<in> set msgs. parts e = [\<lparr>text' = content m\<rparr>] \<and>
           (h_role e = ''user'' \<and> role m = ''user'' \<or> h_role e = ''model'' \<and> role m = ''assistant'')"
proof -
  have "drop 2 (buildChatHistory variant msgs lu) =
      (if length msgs > 1
       then concat (map (turnEntries msgs)
              (filter (\<lambda>msg. role msg = ''user'' \<and> id' msg \<noteq> id' lu) msgs))
       else [])"
    by (simp add: buildChatHistory_eq primingHistory_def)
  with assms obtain userMsg where "userMsg \<in> set msgs" "role userMsg = ''user''"
      "e \<in> set (turnEntries msgs userMsg)"
    by (auto split: if_splits)
  then show ?thesis by (rule turnEntries_real)
qed

lemma literal_nonempty: "retryDelayLiteral \<noteq> []"
  by (simp add: retryDelayLiteral_def)

lemma matchHere_Nil: "matchHere [] = None"
  using literal_nonempty by (cases retryDelayLiteral) (simp_all add: matchHere_def)

lemma retryDelayMatch_unfold:
  "retryDelayMatch s =
     (case matchHere s of
        Some ds \<Rightarrow> Some ds
      | None \<Rightarrow> (case s of [] \<Rightarrow> None | c # cs \<Rightarrow> retryDelayMatch cs))"
  by (cases s) (auto simp: matchHere_Nil split: option.splits)

lemma retryDelayMatch_skip:
  "\<forall>p < length pre. matchHere (drop p (pre @ rest)) = None \<Longrightarrow>
   retryDelayMatch (pre @ rest) = retryDelayMatch rest"
proof (induction pre)
  case Nil
  then show ?case by simp
next
  case (Cons c cs)
  from Cons.prems have 0: "matchHere ((c # cs) @ rest) = None" by force
  have "\<forall>p < length cs. matchHere (drop p (cs @ rest)) = None"
  proof (intro allI impI)
    fix p assume "p < length cs"
    then have "Suc p < length (c # cs)" by simp
    with Cons.prems have "matchHere (drop (Suc p) ((c # cs) @ rest)) = None" by blast
    then show "matchHere (drop p (cs @ rest)) = None" by simp
  qed
  then have "retryDelayMatch (cs @ rest) = retryDelayMatch rest" by (rule Cons.IH)
  with 0 show ?case by simp
qed

lemma not_digit_s: "\<not> isDigit CHR ''s''"
  by (simp add: isDigit_def)

lemma matchHere_digits:
  assumes "ds \<noteq> []" "list_all isDigit ds"
  shows "matchHere (retryDelayLiteral @ ds @ ''s'' @ suf) = Some ds"
proof -
  have tw: "takeWhile isDigit (ds @ CHR ''s'' # suf) = ds"
    using assms(2) not_digit_s by (simp add: takeWhile_tail list_all_iff)
  have dw: "dropWhile isDigit (ds @ CHR ''s'' # suf) = CHR ''s'' # suf"
    using assms(2) not_digit_s by (simp add: dropWhile_append list_all_iff)
  have sw: "startsWith (retryDelayLiteral @ ds @ CHR ''s'' # suf) retryDelayLiteral"
    by (simp add: startsWith_iff)
  show ?thesis
    using assms(1) by (simp add: matchHere_def sw tw dw)
qed

lemma matchHere_Some_iff:
  "matchHere s = Some ds \<longleftrightarrow>
     ds \<noteq> [] \<and> list_all isDigit ds \<and> (\<exists>suf. s = retryDelayLiteral @ ds @ ''s'' @ suf)"
proof
  assume m: "matchHere s = Some ds"
  then have sw: "startsWith s retryDelayLiteral" by (auto simp: matchHere_def split: if_splits)
  then obtain rest where s: "s = retryDelayLiteral @ rest" by (auto simp: startsWith_iff)
  from m sw s have ds: "ds = takeWhile isDigit rest" "ds \<noteq> []"
      and after: "startsWith (dropWhile isDigit rest) ''s''"
    by (auto simp: matchHere_def Let_def split: if_splits)
  from after obtain suf where "dropWhile isDigit rest = ''s'' @ suf"
    by (auto simp: startsWith_iff)
  then have "rest = ds @ ''s'' @ suf"
    using takeWhile_dropWhile_id[of isDigit rest] ds(1) by simp
  moreover have "list_all isDigit ds"
    unfolding ds(1) by (simp add: list_all_iff) (meson set_takeWhileD)
  ultimately show "ds \<noteq> [] \<and> list_all isDigit ds \<and> (\<exists>suf. s = retryDelayLiteral @ ds @ ''s'' @ suf)"
    using ds(2) s by blast
next
  assume "ds \<noteq> [] \<and> list_all isDigit ds \<and> (\<exists>suf. s = retryDelayLiteral @ ds @ ''s'' @ suf)"
  then show "matchHere s = Some ds" using matchHere_digits by blast
qed

lemma retryDelayMatch_None_iff:
  "retryDelayMatch s = None \<longleftrightarrow>
     \<not> (\<exists>pre ds suf. ds \<noteq> [] \<and> list_all isDigit ds \<and> s = pre @ retryDelayLiteral @ ds @ ''s'' @ suf)"
proof (induction s)
  case Nil
  then show ?case using literal_nonempty by (simp add: matchHere_Nil)
next
  case (Cons c cs)
  show ?case
  proof
    assume n: "retryDelayMatch (c # cs) = None"
    then have here: "matchHere (c # cs) = None" and tl: "retryDelayMatch cs = None"
      by (auto split: option.splits)
    show "\<not> (\<exists>pre ds suf. ds \<noteq> [] \<and> list_all isDigit ds \<and>
               c # cs = pre @ retryDelayLiteral @ ds @ ''s'' @ suf)"
    proof
      assume "\<exists>pre ds suf. ds \<noteq> [] \<and> list_all isDigit ds \<and>
               c # cs = pre @ retryDelayLiteral @ ds @ ''s'' @ suf"
      then obtain pre ds suf where ds: "ds \<noteq> []" "list_all isDigit ds"
          and eq: "c # cs = pre @ retryDelayLiteral @ ds @ ''s'' @ suf" by blast
      show False
      proof (cases pre)
        case Nil
        with eq ds have "matchHere (c # cs) = Some ds" using matchHere_digits by simp
        with here show False by simp
      next
        case (Cons p ps)
        with eq have "cs = ps @ retryDelayLiteral @ ds @ ''s'' @ suf" by simp
        with ds tl Cons.IH show False by blast
      qed
    qed
  next
    assume no: "\<not> (\<exists>pre ds suf. ds \<noteq> [] \<and> list_all isDigit ds \<and>
               c # cs = pre @ retryDelayLiteral @ ds @ ''s'' @ suf)"
    have here: "matchHere (c # cs) = None"
    proof (cases "matchHere (c # cs)")
      case None then show ?thesis .
    next
      case (Some ds)
      then obtain suf where "ds \<noteq> []" "list_all isDigit ds"
          "c # cs = [] @ retryDelayLiteral @ ds @ ''s'' @ suf"
        by (auto simp: matchHere_Some_iff)
      with no show ?thesis by blast
    qed
    have "\<not> (\<exists>pre ds suf. ds \<noteq> [] \<and> list_all isDigit ds \<and>
               cs = pre @ retryDelayLiteral @ ds @ ''s'' @ suf)"
    proof
      assume "\<exists>pre ds suf. ds \<noteq> [] \<and> list_all isDigit ds \<and>
               cs = pre @ retryDelayLiteral @ ds @ ''s'' @ suf"
      then obtain pre ds suf where "ds \<noteq> []" "list_all isDigit ds"
          "c # cs = (c # pre) @ retryDelayLiteral @ ds @ ''s'' @ suf" by auto
      with no show False by blast
    qed
    then have "retryDelayMatch cs = None" using Cons.IH by blast
    with here show "retryDelayMatch (c # cs) = None" by simp
  qed
qed

lemma no_earlier_match_iff:
  "(\<forall>p < n. matchHere (drop p m) = None) \<longleftrightarrow>
   \<not> (\<exists>pre ds suf. length pre < n \<and> ds \<noteq> [] \<and> list_all isDigit ds \<and>
          m = pre @ retryDelayLiteral @ ds @ ''s'' @ suf)"
proof
  assume none: "\<forall>p < n. matchHere (drop p m) = None"
  show "\<not> (\<exists>pre ds suf. length pre < n \<and> ds \<noteq> [] \<and> list_all isDigit ds \<and>
          m = pre @ retryDelayLiteral @ ds @ ''s'' @ suf)"
  proof
    assume "\<exists>pre ds suf. length pre < n \<and> ds \<noteq> [] \<and> list_all isDigit ds \<and>
          m = pre @ retryDelayLiteral @ ds @ ''s'' @ suf"
    then obtain pre ds suf where p: "length pre < n" and ds: "ds \<noteq> []" "list_all isDigit ds"
        and m: "m = pre @ retryDelayLiteral @ ds @ ''s'' @ suf" by blast
    from m have "drop (length pre) m = retryDelayLiteral @ ds @ ''s'' @ suf" by simp
    then have "matchHere (drop (length pre) m) = Some ds"
      using matchHere_digits[OF ds] by simp
    with none p show False by simp
  qed
next
  assume no: "\<not> (\<exists>pre ds suf. length pre < n \<and> ds \<noteq> [] \<and> list_all isDigit ds \<and>
          m = pre @ retryDelayLiteral @ ds @ ''s'' @ suf)"
  show "\<forall>p < n. matchHere (drop p m) = None"
  proof (intro allI impI)
    fix p assume p: "p < n"
    show "matchHere (drop p m) = None"
    proof (cases "matchHere (drop p m)")
      case None
      then show ?thesis .
    next
      case (Some ds)
      then obtain suf where ds: "ds \<noteq> []" "list_all isDigit ds"
          and d: "drop p m = retryDelayLiteral @ ds @ ''s'' @ suf"
        by (auto simp: matchHere_Some_iff)
      have "drop p m \<noteq> []" using d literal_nonempty by simp
      then have "p < length m" by simp
      then have "length (take p m) < n" using p by simp
      moreover have "m = take p m @ retryDelayLiteral @ ds @ ''s'' @ suf"
        using d append_take_drop_id[of p m] by simp
      ultimately show ?thesis using no ds by blast
    qed
  qed
qed

lemma parseInt_17: "parseInt ''17'' = 17"
  by (simp add: parseInt_def digitValue_def)

lemma toString_17: "toString 17 = ''17''"
  by code_simp

lemma toString_60: "toString 60 = ''60''"
  by code_simp

lemma retrySeconds_17:
  assumes "message e = Some (pre @ retryDelayLiteral @ ''17s'' @ suf)"
    and "\<forall>p < length pre. matchHere (drop p (pre @ retryDelayLiteral @ ''17s'' @ suf)) = None"
  shows "retrySecondsOf e = 17"
proof -
  have "matchHere (retryDelayLiteral @ ''17'' @ ''s'' @ suf) = Some ''17''"
    by (rule matchHere_digits) (simp_all add: isDigit_def)
  then have "retryDelayMatch (retryDelayLiteral @ ''17s'' @ suf) = Some ''17''"
    by (subst retryDelayMatch_unfold) simp
  with retryDelayMatch_skip[OF assms(2)]
  have "retryDelayMatch (pre @ retryDelayLiteral @ ''17s'' @ suf) = Some ''17''" by simp
  with assms(1) show ?thesis by (simp add: retrySecondsOf_def parseInt_17)
qed

lemma legalFirstTurn_request:
  "chatRequest KautilyaAI legalFirstTurn =
     Inr (primingHistory KautilyaAI, ''What are my rights as a tenant?'')"
  by (simp add: chatRequest_def legalFirstTurn_def buildChatHistory_def Let_def)

lemma includes_str_substring: "includes_str (a @ k @ b) k"
  by (auto simp: includes_iff)

lemma POST_upstream_error:
  "chatRequest variant msgs = Inr (h, c) \<Longrightarrow> sendMessageStream h c = Inl e \<Longrightarrow>
   POST variant encode sendMessageStream msgs = catchError e"
  by (simp add: POST_def)

lemma catchError_rate_limit:
  "isRateLimit e \<Longrightarrow> retrySecondsOf e = n \<Longrightarrow>
   catchError e =
     \<lparr>body = JsonBody (RateLimitJson ''Rate limit exceeded''
         (''Google AI API rate limit reached. Please try again in '' @ toString n @
          '' seconds. The free tier of Gemini API has strict rate limits.'') n),
      status_code = 429,
      headers = [(''Content-Type'', ''application/json''), (''Retry-After'', toString n)]\<rparr>"
  by (simp add: catchError_def Let_def)

lemma list_all_upt: "list_all P [0..<n] \<Longrightarrow> \<forall>p < n. P p"
  by (simp add: list_all_iff)

lemma quota429_first:
  "\<not> (\<exists>pre ds suf. length pre < length ''[429 Too Many Requests] '' \<and> ds \<noteq> [] \<and>
          list_all isDigit ds \<and>
          ''[429 Too Many Requests] '' @ retryDelayLiteral @ ''17s'' @ [CHR 0x22] =
            pre @ retryDelayLiteral @ ds @ ''s'' @ suf)"
proof -
  have "\<forall>p < length ''[429 Too Many Requests] ''.
     matchHere (drop p (''[429 Too Many Requests] '' @ retryDelayLiteral @ ''17s'' @ [CHR 0x22])) = None"
    by (rule list_all_upt) code_simp
  then show ?thesis
    using no_earlier_match_iff[of "length ''[429 Too Many Requests] ''"
        "''[429 Too Many Requests] '' @ retryDelayLiteral @ ''17s'' @ [CHR 0x22]"]
    by blast
qed

section \<open>Lemmas on the page\<close>

lemma trim_empty_iff: "trim t = [] \<longleftrightarrow> (\<forall>c \<in> set t. isWhiteSpace c)"
proof
  assume "trim t = []"
  then have "dropWhile isWhiteSpace (rev (dropWhile isWhiteSpace t)) = []"
    by (simp add: trim_def)
  then have "\<forall>c \<in> set (rev (dropWhile isWhiteSpace t)). isWhiteSpace c"
    by (simp only: dropWhile_eq_Nil_conv)
  then have all: "\<forall>c \<in> set (dropWhile isWhiteSpace t). isWhiteSpace c"
    by (simp only: set_rev)
  have "dropWhile isWhiteSpace t = []"
  proof (rule ccontr)
    assume ne: "dropWhile isWhiteSpace t \<noteq> []"
    then have "\<not> isWhiteSpace (hd (dropWhile isWhiteSpace t))" by (rule hd_dropWhile)
    moreover have "hd (dropWhile isWhiteSpace t) \<in> set (dropWhile isWhiteSpace t)"
      using ne by (rule hd_in_set)
    ultimately show False using all by blast
  qed
  then show "\<forall>c \<in> set t. isWhiteSpace c" by (simp only: dropWhile_eq_Nil_conv)
next
  assume "\<forall>c \<in> set t. isWhiteSpace c"
  then have "dropWhile isWhiteSpace t = []" by (simp only: dropWhile_eq_Nil_conv)
  then show "trim t = []" by (simp only: trim_def rev.simps dropWhile.simps)
qed

lemma blank_sample: "\<forall>ch \<in> set [CHR 0x20, CHR 0x09]. isWhiteSpace ch"
  by (simp add: isWhiteSpace_def)

lemma loadingState_busy: "isLoading loadingState"
  by (simp add: loadingState_def)

section \<open>Lemmas on the stream path\<close>























































section \<open>Claims\<close>

text \<open>
  C1. For every input text, each classifier (\<open>isChallengeQuery\<close> of the challenge bot,
  \<open>isLegalQuestion\<close> of the legal bot) is true exactly when the lower-cased text contains an
  entry of that bot's keyword list as a substring. Both are HOL functions of the text alone,
  hence pure and deterministic.
\<close>

theorem C1_classifier_iff_keyword_substring:
  "(isChallengeQuery text \<longleftrightarrow>
      (\<exists>k \<in> set challengeKeywords. \<exists>pre suf. toLowerCase text = pre @ k @ suf)) \<and>
   (isLegalQuestion text \<longleftrightarrow>
      (\<exists>k \<in> set legalKeywords. \<exists>pre suf. toLowerCase text = pre @ k @ suf))"
proof -
  have c: "\<And>k. k \<in> set challengeKeywords \<Longrightarrow> toLowerCase k = k"
    using challengeKeywords_lower by (simp add: list_all_iff)
  have l: "\<And>k. k \<in> set legalKeywords \<Longrightarrow> toLowerCase k = k"
    using legalKeywords_lower by (simp add: list_all_iff)
  have "isChallengeQuery text \<longleftrightarrow>
      (\<exists>k \<in> set challengeKeywords. includes_str (toLowerCase text) (toLowerCase k))"
    by (simp add: isChallengeQuery_def some_iff)
  also have "\<dots> \<longleftrightarrow> (\<exists>k \<in> set challengeKeywords. includes_str (toLowerCase text) k)"
    using c by auto
  finally have 1: "isChallengeQuery text \<longleftrightarrow>
      (\<exists>k \<in> set challengeKeywords. \<exists>pre suf. toLowerCase text = pre @ k @ suf)"
    by (simp add: includes_iff)
  have "isLegalQuestion text \<longleftrightarrow>
      (\<exists>k \<in> set legalKeywords. includes_str (toLowerCase text) (toLowerCase k))"
    by (simp add: isLegalQuestion_def some_iff)
  also have "\<dots> \<longleftrightarrow> (\<exists>k \<in> set legalKeywords. includes_str (toLowerCase text) k)"
    using l by auto
  finally have 2: "isLegalQuestion text \<longleftrightarrow>
      (\<exists>k \<in> set legalKeywords. \<exists>pre suf. toLowerCase text = pre @ k @ suf)"
    by (simp add: includes_iff)
  from 1 2 show ?thesis by blast
qed

theorem C1_classifier_iff_keyword_substring_witness:
  "\<exists>k \<in> set legalKeywords. \<exists>pre suf.
      toLowerCase ''What are my rights as a tenant?'' = pre @ k @ suf"
  using C1_classifier_iff_keyword_substring[of "''What are my rights as a tenant?''"]
    isLegalQuestion_tenant
  by blast



text \<open>
  C3, amended. The claim as written fails when the user message of the pair is the active
  query, which the handler keeps out of the history. What holds: for every transcript with
  unique message ids in which a \<open>user\<close> message at position \<open>i\<close> is immediately followed by an
  \<open>assistant\<close> message at position \<open>i + 1\<close> and some later message has the role \<open>user\<close>
  (so the message at \<open>i\<close> is not the most recent user message), the history given to the model
  contains a \<open>user\<close> entry with the user message's content immediately followed by a
  \<open>model\<close> entry with the assistant message's content.
\<close>

theorem C3_history_contains_pair:
  assumes d: "distinct (map id' msgs)"
    and i: "Suc i < length msgs"
    and u: "role (msgs ! i) = ''user''"
    and a: "role (msgs ! Suc i) = ''assistant''"
    and later: "\<exists>j. i < j \<and> j < length msgs \<and> role (msgs ! j) = ''user''"
  shows "\<exists>pre suf sent. chatRequest variant msgs =
           Inr (pre @ [\<lparr>h_role = ''user'', parts = [\<lparr>text' = content (msgs ! i)\<rparr>]\<rparr>,
                       \<lparr>h_role = ''model'', parts = [\<lparr>text' = content (msgs ! Suc i)\<rparr>]\<rparr>] @ suf,
                sent)"
proof -
  from later obtain j where j: "i < j" "j < length msgs" "role (msgs ! j) = ''user''" by blast
  then have "\<exists>m \<in> set msgs. role m = ''user''" using nth_mem by blast
  then obtain k where k: "k < length msgs" "role (msgs ! k) = ''user''"
      "\<forall>j. k < j \<and> j < length msgs \<longrightarrow> role (msgs ! j) \<noteq> ''user''"
    using last_index_exists[of msgs "\<lambda>m. role m = ''user''"] by blast
  have "j \<le> k" using j k(3) by (meson not_le_imp_less)
  with j(1) have ik: "i \<noteq> k" by simp
  let ?P = "\<lambda>msg. role msg = ''user'' \<and> id' msg \<noteq> id' (msgs ! k)"
  have "id' (msgs ! i) \<noteq> id' (msgs ! k)"
    using d i k(1) ik by (simp add: distinct_ids_nth)
  then have "msgs ! i \<in> set (filter ?P msgs)" using i u by simp
  then obtain xs ys where split: "filter ?P msgs = xs @ msgs ! i # ys"
    by (meson split_list)
  have "\<forall>j < i. id' (msgs ! j) \<noteq> id' (msgs ! i)"
    using d i by (auto simp: distinct_ids_nth)
  then have "turnEntries msgs (msgs ! i) = derivedEntries msgs i"
    using i by (simp add: turnEntries_at)
  also have "\<dots> = [\<lparr>h_role = ''user'', parts = [\<lparr>text' = content (msgs ! i)\<rparr>]\<rparr>,
                    \<lparr>h_role = ''model'', parts = [\<lparr>text' = content (msgs ! Suc i)\<rparr>]\<rparr>]"
    using i a by (simp add: derivedEntries_def)
  finally have t: "turnEntries msgs (msgs ! i) =
      [\<lparr>h_role = ''user'', parts = [\<lparr>text' = content (msgs ! i)\<rparr>]\<rparr>,
       \<lparr>h_role = ''model'', parts = [\<lparr>text' = content (msgs ! Suc i)\<rparr>]\<rparr>]" .
  have len: "length msgs > 1" using i by simp
  have "buildChatHistory variant msgs (msgs ! k) =
      (primingHistory variant @ concat (map (turnEntries msgs) xs)) @
      [\<lparr>h_role = ''user'', parts = [\<lparr>text' = content (msgs ! i)\<rparr>]\<rparr>,
       \<lparr>h_role = ''model'', parts = [\<lparr>text' = content (msgs ! Suc i)\<rparr>]\<rparr>] @
      concat (map (turnEntries msgs) ys)"
    using len by (simp add: buildChatHistory_eq split t)
  moreover have "chatRequest variant msgs =
      Inr (buildChatHistory variant msgs (msgs ! k), content (msgs ! k))"
    using k by (rule chatRequest_last)
  ultimately show ?thesis by metis
qed

theorem C3_history_contains_pair_witness:
  "distinct (map id' twoTurnTranscript) \<and> Suc 1 < length twoTurnTranscript \<and>
   role (twoTurnTranscript ! 1) = ''user'' \<and> role (twoTurnTranscript ! Suc 1) = ''assistant'' \<and>
   (\<exists>j. 1 < j \<and> j < length twoTurnTranscript \<and> role (twoTurnTranscript ! j) = ''user'') \<and>
   (\<exists>pre suf sent. chatRequest SadhanaAI twoTurnTranscript =
      Inr (pre @ [\<lparr>h_role = ''user'', parts = [\<lparr>text' = content (twoTurnTranscript ! 1)\<rparr>]\<rparr>,
                  \<lparr>h_role = ''model'', parts = [\<lparr>text' = content (twoTurnTranscript ! Suc 1)\<rparr>]\<rparr>] @ suf,
           sent))"
  using twoTurn_facts C3_history_contains_pair[OF twoTurn_facts, of SadhanaAI] by blast

theorem C3_history_pair_counterexample:
  "role (pairOnlyTranscript ! 0) = ''user'' \<and> role (pairOnlyTranscript ! 1) = ''assistant'' \<and>
   content (pairOnlyTranscript ! 0) = ''q'' \<and>
   chatRequest SadhanaAI pairOnlyTranscript = Inr (primingHistory SadhanaAI, ''q'') \<and>
   \<lparr>h_role = ''user'', parts = [\<lparr>text' = ''q''\<rparr>]\<rparr> \<notin> set (primingHistory SadhanaAI)"
  by (simp add: pairOnly_request) (simp add: pairOnlyTranscript_def primingHistory_def)

text \<open>
  C4. For every transcript with unique ids and at least one \<open>user\<close> message, let \<open>k\<close> be the
  position of the most recent \<open>user\<close> message. The text given to \<open>sendMessageStream\<close> is the
  content of the message at \<open>k\<close>, and the history is the two priming entries followed by the
  entries derived from the \<open>user\<close> positions other than \<open>k\<close>, in order: position \<open>k\<close>
  contributes no entry, neither a \<open>user\<close> entry nor a paired \<open>model\<close> entry. \<open>POST\<close> calls
  the model with exactly this history and this text.
\<close>

theorem C4_active_query_only_sent:
  assumes "distinct (map id' msgs)" and "\<exists>m \<in> set msgs. role m = ''user''"
  shows "\<exists>k. k < length msgs \<and> role (msgs ! k) = ''user'' \<and>
             (\<forall>j. k < j \<and> j < length msgs \<longrightarrow> role (msgs ! j) \<noteq> ''user'') \<and>
             chatRequest variant msgs =
               Inr (primingHistory variant @
                    concat (map (derivedEntries msgs)
                      (filter (\<lambda>i. role (msgs ! i) = ''user'' \<and> i \<noteq> k) [0..<length msgs])),
                    content (msgs ! k)) \<and>
             POST variant encode sendMessageStream msgs =
               (case sendMessageStream
                       (primingHistory variant @
                        concat (map (derivedEntries msgs)
                          (filter (\<lambda>i. role (msgs ! i) = ''user'' \<and> i \<noteq> k) [0..<length msgs])))
                       (content (msgs ! k)) of
                  Inl e \<Rightarrow> catchError e
                | Inr stream \<Rightarrow>
                    \<lparr>body = StreamBody (start encode stream),
                     status_code = 200,
                     headers = [(''Content-Type'', ''text/plain; charset=utf-8'')]\<rparr>)"
proof -
  obtain k where k: "k < length msgs" "role (msgs ! k) = ''user''"
      "\<forall>j. k < j \<and> j < length msgs \<longrightarrow> role (msgs ! j) \<noteq> ''user''"
    using last_index_exists[OF assms(2)] by blast
  have req: "chatRequest variant msgs =
      Inr (buildChatHistory variant msgs (msgs ! k), content (msgs ! k))"
    using k by (rule chatRequest_last)
  have "buildChatHistory variant msgs (msgs ! k) =
      primingHistory variant @
      concat (map (derivedEntries msgs)
        (filter (\<lambda>i. role (msgs ! i) = ''user'' \<and> i \<noteq> k) [0..<length msgs]))"
  proof (cases "length msgs > 1")
    case True
    then show ?thesis
      by (simp add: buildChatHistory_eq user_turns_by_index[OF assms(1) k(1)])
  next
    case False
    with k(1) have "length msgs = Suc 0" "k = 0" by auto
    then show ?thesis by (simp add: buildChatHistory_eq)
  qed
  with req have full: "chatRequest variant msgs =
      Inr (primingHistory variant @
           concat (map (derivedEntries msgs)
             (filter (\<lambda>i. role (msgs ! i) = ''user'' \<and> i \<noteq> k) [0..<length msgs])),
           content (msgs ! k))"
    by simp
  then have "POST variant encode sendMessageStream msgs =
      (case sendMessageStream
              (primingHistory variant @
               concat (map (derivedEntries msgs)
                 (filter (\<lambda>i. role (msgs ! i) = ''user'' \<and> i \<noteq> k) [0..<length msgs])))
              (content (msgs ! k)) of
         Inl e \<Rightarrow> catchError e
       | Inr stream \<Rightarrow>
           \<lparr>body = StreamBody (start encode stream),
            status_code = 200,
            headers = [(''Content-Type'', ''text/plain; charset=utf-8'')]\<rparr>)"
    by (simp add: POST_def)
  with full k show ?thesis by blast
qed

theorem C4_active_query_only_sent_witness:
  "distinct (map id' twoTurnTranscript) \<and> (\<exists>m \<in> set twoTurnTranscript. role m = ''user'') \<and>
   (\<exists>k. k < length twoTurnTranscript \<and> role (twoTurnTranscript ! k) = ''user'' \<and>
        chatRequest SadhanaAI twoTurnTranscript =
          Inr (primingHistory SadhanaAI @
               concat (map (derivedEntries twoTurnTranscript)
                 (filter (\<lambda>i. role (twoTurnTranscript ! i) = ''user'' \<and> i \<noteq> k)
                    [0..<length twoTurnTranscript])),
               content (twoTurnTranscript ! k)))"
proof -
  have d: "distinct (map id' twoTurnTranscript)" by (simp add: twoTurnTranscript_def)
  have u: "\<exists>m \<in> set twoTurnTranscript. role m = ''user''" by (simp add: twoTurnTranscript_def)
  from C4_active_query_only_sent[OF d u, of SadhanaAI] d u show ?thesis by blast
qed

text \<open>
  C5. Whenever the handler reaches the model call, the history it passes starts with the two
  priming entries, a \<open>user\<close> entry with the acknowledgement prompt and a \<open>model\<close> entry with
  the persona instruction, and every entry after them comes from a message of the transcript
  (a \<open>user\<close> entry from a \<open>user\<close> message, a \<open>model\<close> entry from an \<open>assistant\<close>
  message). For a transcript of one assistant greeting and one new user message, the two priming
  entries are the whole history.
\<close>

theorem C5_history_starts_with_priming:
  "(chatRequest variant msgs = Inr (h, sent) \<longrightarrow>
      take 2 h = [\<lparr>h_role = ''user'', parts = [\<lparr>text' = acknowledgePrompt variant\<rparr>]\<rparr>,
                  \<lparr>h_role = ''model'', parts = [\<lparr>text' = systemPromptText variant\<rparr>]\<rparr>] \<and>
      (\<forall>e \<in> set (drop 2 h). \<exists>m \<in> set msgs. parts e = [\<lparr>text' = content m\<rparr>] \<and>
          (h_role e = ''user'' \<and> role m = ''user'' \<or>
           h_role e = ''model'' \<and> role m = ''assistant''))) \<and>
   (role g = ''assistant'' \<and> role u = ''user'' \<longrightarrow>
      chatRequest variant [g, u] =
        Inr ([\<lparr>h_role = ''user'', parts = [\<lparr>text' = acknowledgePrompt variant\<rparr>]\<rparr>,
              \<lparr>h_role = ''model'', parts = [\<lparr>text' = systemPromptText variant\<rparr>]\<rparr>],
             content u))"
proof (intro conjI impI)
  assume req: "chatRequest variant msgs = Inr (h, sent)"
  then obtain lu where h: "h = buildChatHistory variant msgs lu"
    by (auto simp: chatRequest_def Let_def split: if_splits)
  show "take 2 h = [\<lparr>h_role = ''user'', parts = [\<lparr>text' = acknowledgePrompt variant\<rparr>]\<rparr>,
                    \<lparr>h_role = ''model'', parts = [\<lparr>text' = systemPromptText variant\<rparr>]\<rparr>]"
    by (simp add: h buildChatHistory_eq primingHistory_def)
  show "\<forall>e \<in> set (drop 2 h). \<exists>m \<in> set msgs. parts e = [\<lparr>text' = content m\<rparr>] \<and>
          (h_role e = ''user'' \<and> role m = ''user'' \<or>
           h_role e = ''model'' \<and> role m = ''assistant'')"
    unfolding h using buildChatHistory_real by blast
next
  assume gu: "role g = ''assistant'' \<and> role u = ''user''"
  have "chatRequest variant [g, u] =
      Inr (buildChatHistory variant [g, u] ([g, u] ! 1), content ([g, u] ! 1))"
    using gu by (intro chatRequest_last) (auto simp: less_Suc_eq)
  moreover have "buildChatHistory variant [g, u] u = primingHistory variant"
    using gu by (simp add: buildChatHistory_eq)
  ultimately show "chatRequest variant [g, u] =
        Inr ([\<lparr>h_role = ''user'', parts = [\<lparr>text' = acknowledgePrompt variant\<rparr>]\<rparr>,
              \<lparr>h_role = ''model'', parts = [\<lparr>text' = systemPromptText variant\<rparr>]\<rparr>],
             content u)"
    by (simp add: primingHistory_def)
qed

theorem C5_history_starts_with_priming_witness:
  "role (legalFirstTurn ! 0) = ''assistant'' \<and> role (legalFirstTurn ! 1) = ''user'' \<and>
   chatRequest KautilyaAI legalFirstTurn =
     Inr ([\<lparr>h_role = ''user'', parts = [\<lparr>text' = acknowledgePrompt KautilyaAI\<rparr>]\<rparr>,
           \<lparr>h_role = ''model'', parts = [\<lparr>text' = systemPromptText KautilyaAI\<rparr>]\<rparr>],
          ''What are my rights as a tenant?'')"
  using C5_history_starts_with_priming[of KautilyaAI "[]" "[]" "[]" "legalFirstTurn ! 0" "legalFirstTurn ! 1"]
  by (simp add: legalFirstTurn_def)

text \<open>
  C6, amended. The claim as written fails for an error that has neither the status 429 nor
  \<open>429\<close> in its message: the handler looks for a retry delay only behind that test. What
  holds: when the model call throws an error that carries the status 429 or whose message
  contains \<open>429\<close>, and whose message contains \<open>retryDelay":"17s\<close> with no occurrence of
  \<open>retryDelay":"\<close> followed by one or more digits and \<open>s\<close> starting earlier in the
  message, the handler returns status 429, a JSON body with \<open>retryAfter\<close> 17 and the header
  \<open>Retry-After\<close> equal to \<open>17\<close>.
\<close>

theorem C6_retry_delay_17:
  assumes req: "chatRequest variant msgs = Inr (h, c)"
    and up: "sendMessageStream h c = Inl e"
    and msg: "message e = Some (pre @ retryDelayLiteral @ ''17s'' @ suf)"
    and gate: "status e = Some 429 \<or>
               (\<exists>a b. pre @ retryDelayLiteral @ ''17s'' @ suf = a @ ''429'' @ b)"
    and first: "\<not> (\<exists>pre' ds suf'. length pre' < length pre \<and> ds \<noteq> [] \<and> list_all isDigit ds \<and>
                  pre @ retryDelayLiteral @ ''17s'' @ suf = pre' @ retryDelayLiteral @ ds @ ''s'' @ suf')"
  shows "POST variant encode sendMessageStream msgs =
     \<lparr>body = JsonBody (RateLimitJson ''Rate limit exceeded''
         ''Google AI API rate limit reached. Please try again in 17 seconds. The free tier of Gemini API has strict rate limits.''
         17),
      status_code = 429,
      headers = [(''Content-Type'', ''application/json''), (''Retry-After'', ''17'')]\<rparr>"
proof -
  have "pre @ retryDelayLiteral @ ''17s'' @ suf \<noteq> []" by simp
  with gate msg have rl: "isRateLimit e"
    by (auto simp: isRateLimit_def includes_iff)
  from first have "\<forall>p < length pre.
      matchHere (drop p (pre @ retryDelayLiteral @ ''17s'' @ suf)) = None"
    using no_earlier_match_iff[of "length pre" "pre @ retryDelayLiteral @ ''17s'' @ suf"]
    by blast
  with msg have rs: "retrySecondsOf e = 17" by (rule retrySeconds_17)
  show ?thesis
    unfolding POST_upstream_error[where sendMessageStream = sendMessageStream, OF req up]
      catchError_rate_limit[OF rl rs]
    by (simp add: toString_17)
qed

theorem C6_retry_delay_17_witness:
  "status quotaError429 = Some 429 \<and>
   message quotaError429 =
     Some (''[429 Too Many Requests] '' @ retryDelayLiteral @ ''17s'' @ [CHR 0x22]) \<and>
   POST KautilyaAI utf8Encode (rejecting quotaError429) legalFirstTurn =
     \<lparr>body = JsonBody (RateLimitJson ''Rate limit exceeded''
         ''Google AI API rate limit reached. Please try again in 17 seconds. The free tier of Gemini API has strict rate limits.''
         17),
      status_code = 429,
      headers = [(''Content-Type'', ''application/json''), (''Retry-After'', ''17'')]\<rparr>"
proof -
  have up: "rejecting quotaError429 (primingHistory KautilyaAI) ''What are my rights as a tenant?'' =
      Inl quotaError429"
    by (simp add: rejecting_def)
  have msg: "message quotaError429 =
      Some (''[429 Too Many Requests] '' @ retryDelayLiteral @ ''17s'' @ [CHR 0x22])"
    by (simp add: quotaError429_def)
  have st: "status quotaError429 = Some 429" by (simp add: quotaError429_def)
  from st have gate: "status quotaError429 = Some 429 \<or>
      (\<exists>a b. ''[429 Too Many Requests] '' @ retryDelayLiteral @ ''17s'' @ [CHR 0x22] = a @ ''429'' @ b)"
    by blast
  from C6_retry_delay_17[where sendMessageStream = "rejecting quotaError429" and encode = utf8Encode,
          OF legalFirstTurn_request up msg gate quota429_first] st msg
  show ?thesis by blast
qed

theorem C6_retry_delay_counterexample:
  "message quotaError503 = Some (''Quota exceeded, '' @ retryDelayLiteral @ ''17s'') \<and>
   includes_str (''Quota exceeded, '' @ retryDelayLiteral @ ''17s'') (retryDelayLiteral @ ''17s'') \<and>
   status_code (POST KautilyaAI utf8Encode (rejecting quotaError503) legalFirstTurn) = 500"
proof -
  have "isRateLimit quotaError503 = False"
    by (simp add: isRateLimit_def quotaError503_def retryDelayLiteral_def)
  then have "status_code (POST KautilyaAI utf8Encode (rejecting quotaError503) legalFirstTurn) = 500"
    by (simp add: POST_def legalFirstTurn_request rejecting_def catchError_def)
  moreover have "includes_str (''Quota exceeded, '' @ retryDelayLiteral @ ''17s'')
      (retryDelayLiteral @ ''17s'')"
    using includes_str_substring[of "''Quota exceeded, ''" "retryDelayLiteral @ ''17s''" "[]"] by simp
  ultimately show ?thesis by (simp add: quotaError503_def)
qed

text \<open>
  C7. When the model call throws an error with the status 429 whose message is absent, or
  contains no occurrence of \<open>retryDelay":"\<close> followed by one or more digits and \<open>s\<close>, the
  handler returns status 429 with \<open>retryAfter\<close> 60 and the header \<open>Retry-After\<close> equal to
  \<open>60\<close>.
\<close>

theorem C7_retry_default_60:
  assumes req: "chatRequest variant msgs = Inr (h, c)"
    and up: "sendMessageStream h c = Inl e"
    and st: "status e = Some 429"
    and none: "message e = None \<or>
               (\<exists>m. message e = Some m \<and>
                  \<not> (\<exists>pre ds suf. ds \<noteq> [] \<and> list_all isDigit ds \<and>
                        m = pre @ retryDelayLiteral @ ds @ ''s'' @ suf))"
  shows "POST variant encode sendMessageStream msgs =
     \<lparr>body = JsonBody (RateLimitJson ''Rate limit exceeded''
         ''Google AI API rate limit reached. Please try again in 60 seconds. The free tier of Gemini API has strict rate limits.''
         60),
      status_code = 429,
      headers = [(''Content-Type'', ''application/json''), (''Retry-After'', ''60'')]\<rparr>"
proof -
  have rl: "isRateLimit e" using st by (simp add: isRateLimit_def)
  from none have rs: "retrySecondsOf e = 60"
  proof
    assume "message e = None"
    then show ?thesis by (simp add: retrySecondsOf_def)
  next
    assume "\<exists>m. message e = Some m \<and>
                  \<not> (\<exists>pre ds suf. ds \<noteq> [] \<and> list_all isDigit ds \<and>
                        m = pre @ retryDelayLiteral @ ds @ ''s'' @ suf)"
    then obtain m where "message e = Some m" "retryDelayMatch m = None"
      using retryDelayMatch_None_iff by blast
    then show ?thesis by (simp add: retrySecondsOf_def)
  qed
  show ?thesis
    unfolding POST_upstream_error[where sendMessageStream = sendMessageStream, OF req up]
      catchError_rate_limit[OF rl rs]
    by (simp add: toString_60)
qed

theorem C7_retry_default_60_witness:
  "status bareError429 = Some 429 \<and> message bareError429 = None \<and>
   POST KautilyaAI utf8Encode (rejecting bareError429) legalFirstTurn =
     \<lparr>body = JsonBody (RateLimitJson ''Rate limit exceeded''
         ''Google AI API rate limit reached. Please try again in 60 seconds. The free tier of Gemini API has strict rate limits.''
         60),
      status_code = 429,
      headers = [(''Content-Type'', ''application/json''), (''Retry-After'', ''60'')]\<rparr>"
proof -
  have up: "rejecting bareError429 (primingHistory KautilyaAI) ''What are my rights as a tenant?'' =
      Inl bareError429"
    by (simp add: rejecting_def)
  have st: "status bareError429 = Some 429" and m: "message bareError429 = None"
    by (simp_all add: bareError429_def)
  from m have none: "message bareError429 = None \<or>
      (\<exists>m. message bareError429 = Some m \<and>
         \<not> (\<exists>pre ds suf. ds \<noteq> [] \<and> list_all isDigit ds \<and>
               m = pre @ retryDelayLiteral @ ds @ ''s'' @ suf))"
    by blast
  from C7_retry_default_60[where sendMessageStream = "rejecting bareError429" and encode = utf8Encode,
          OF legalFirstTurn_request up st none] st m show ?thesis by blast
qed

text \<open>
  C8. For every payload in which no message has the role \<open>user\<close>, the handler throws its
  no-user-message error before any model call and answers with status 500 and the JSON body
  \<open>{ error: "No user message found" }\<close>; being a value of \<open>POST\<close>, the answer is a
  response, neither an unhandled fault nor a 200 stream.
\<close>

theorem C8_no_user_message_500:
  assumes "\<forall>m \<in> set msgs. role m \<noteq> ''user''"
  shows "chatRequest variant msgs = Inl \<lparr>status = None, message = Some ''No user message found''\<rparr> \<and>
         POST variant encode sendMessageStream msgs =
           \<lparr>body = JsonBody (ErrorJson ''No user message found''),
            status_code = 500,
            headers = [(''Content-Type'', ''application/json'')]\<rparr>"
  using chatRequest_no_user[OF assms, of variant]
  by (simp add: POST_def catchError_def no_user_not_rate_limit)

theorem C8_no_user_message_500_witness:
  "POST KautilyaAI utf8Encode (streaming [''never'']) greetingOnly =
     \<lparr>body = JsonBody (ErrorJson ''No user message found''),
      status_code = 500,
      headers = [(''Content-Type'', ''application/json'')]\<rparr>"
proof -
  have "\<forall>m \<in> set greetingOnly. role m \<noteq> ''user''" by (simp add: greetingOnly_def)
  from C8_no_user_message_500[OF this] show ?thesis by blast
qed

text \<open>
  C9. When the text is empty or consists of white space only, or when a request is in flight
  (\<open>isLoading\<close>), \<open>sendMessage\<close> returns the state it was called in: the transcript, the
  input field, the log of rendered transcripts and the log of network calls are all unchanged.
\<close>

theorem C9_blank_or_loading_noop:
  assumes "(\<forall>ch \<in> set messageContent. isWhiteSpace ch) \<or> isLoading s"
  shows "sendMessage decode fetch uuid1 uuid2 messageContent s = s"
  using assms by (auto simp: sendMessage_def trim_empty_iff)

theorem C9_blank_or_loading_noop_witness:
  "sendMessage utf8Decode (fetchChat SadhanaAI utf8Encode (streaming [''x'']))
     ''u1'' ''a1'' [CHR 0x20, CHR 0x09] initialState = initialState \<and>
   sendMessage utf8Decode (fetchChat SadhanaAI utf8Encode (streaming [''x'']))
     ''u1'' ''a1'' ''hi'' loadingState = loadingState"
proof -
  have blank: "(\<forall>ch \<in> set [CHR 0x20, CHR 0x09]. isWhiteSpace ch) \<or> isLoading initialState"
    using blank_sample by blast
  have busy: "(\<forall>ch \<in> set ''hi''. isWhiteSpace ch) \<or> isLoading loadingState"
    using loadingState_busy by blast
  from C9_blank_or_loading_noop[OF blank] C9_blank_or_loading_noop[OF busy] show ?thesis by blast
qed

text \<open>
  C10. For every sequence of upstream fragments, the relayed stream holds exactly the encodings
  of the non-empty fragments, in arrival order, and is then closed; an empty fragment is never
  enqueued. Dropping the empty fragments does not change the concatenated text.
\<close>

theorem C10_relay_drops_empty_fragments:
  "start encode (map Inr frags) =
     \<lparr>queue = map encode (filter (\<lambda>t. t \<noteq> []) frags), state = Closed\<rparr> \<and>
   concat (filter (\<lambda>t. t \<noteq> []) frags) = concat frags"
  by (simp add: start_def relayLoop_all_text concat_drop_empty)

theorem C10_relay_drops_empty_fragments_witness:
  "start utf8Encode (map Inr [''Hi'', [], '' there'']) =
     \<lparr>queue = [utf8Encode ''Hi'', utf8Encode '' there''], state = Closed\<rparr>"
  using C10_relay_drops_empty_fragments[of utf8Encode "[''Hi'', [], '' there'']"] by simp

end
